theory Spec2Isabelle
  imports Complex_Main "HOL-Library.List_Lexorder" "HOL-Library.Char_ord"
begin

section \<open>Data model (internal/wallet/types.go)\<close>

text \<open>
  \<open>decimal.Decimal\<close> is the arbitrary-precision decimal of the shopspring library: its
  \<open>Add\<close>, \<open>Sub\<close>, \<open>LessThan\<close> and \<open>LessThanOrEqual\<close> are exact. Every decimal is a
  rational number, so amounts and balances are rationals with \<open>+\<close>, \<open>-\<close>, \<open><\<close>, \<open>\<le>\<close>.
  The \<open>float64\<close> entry points convert their amount with the library's
  \<open>decimal.NewFromFloat\<close> in their first statement; the operations below start after it and
  take the converted \<open>decimalAmount\<close>.
\<close>

type_synonym decimal = rat

datatype error =
    ErrUserNotFound
  | ErrInsufficientBalance
  | ErrInvalidAmount
  | ErrSameUserTransfer
  | ErrUserAlreadyExists

record User =
  ID :: string
  Name :: string
  Email :: string

text \<open>The wallet's own \<open>mu\<close> is the mutex \<open>WalletMu\<close> of its owner (below).\<close>

record Wallet =
  UserID :: string
  Balance :: decimal

datatype TransactionType = TransactionDeposit | TransactionWithdraw | TransactionTransfer

record Transaction =
  ID :: string
  FromUserID :: string
  ToUserID :: string
  Amount :: decimal
  Type :: TransactionType
  Description :: string
  Timestamp :: int

section \<open>Locks and the trace of one call\<close>

text \<open>
  A mutex is named by what it guards: the service's \<open>mu\<close>, the per-user mutex that
  \<open>userLockManager\<close> created on the first reference to a user id, and the \<open>mu\<close> of the
  wallet stored under a user id. A call's trace lists, in program order, the lock
  operations it performs and its writes to \<open>Balance\<close>.
\<close>

datatype mutex = ServiceMu | UserMutex string | WalletMu string

datatype event =
    Lock mutex
  | Unlock mutex
  | RLock mutex
  | RUnlock mutex
  | SetBalance string

text \<open>\<open>userLockManager.locks\<close> is a \<open>sync.Map\<close> from user id to its mutex.\<close>

record userLockManager =
  locks :: "string \<rightharpoonup> mutex"

record WalletService =
  users :: "string \<rightharpoonup> User"
  wallets :: "string \<rightharpoonup> Wallet"
  transactions :: "Transaction list"
  userLocks :: userLockManager

type_synonym 'a outcome = "'a \<times> WalletService \<times> event list"

section \<open>Operations (internal/wallet/wallet.go)\<close>

text \<open>
  \<open>getLock\<close>: \<open>LoadOrStore\<close> returns the mutex already stored under the id, or stores
  a new one and returns it.
\<close>

definition getLock :: "userLockManager \<Rightarrow> string \<Rightarrow> mutex \<times> userLockManager" where
  "getLock ulm userID =
     (case locks ulm userID of
        Some lock \<Rightarrow> (lock, ulm)
      | None \<Rightarrow> (UserMutex userID, ulm\<lparr>locks := (locks ulm)(userID \<mapsto> UserMutex userID)\<rparr>))"

definition NewWalletService :: WalletService where
  "NewWalletService =
     \<lparr>users = Map.empty, wallets = Map.empty, transactions = [],
      userLocks = \<lparr>locks = Map.empty\<rparr>\<rparr>"

definition CreateUser :: "WalletService \<Rightarrow> string \<Rightarrow> string \<Rightarrow> string \<Rightarrow> error option outcome" where
  "CreateUser ws userID name email =
     (if users ws userID \<noteq> None
      then (Some ErrUserAlreadyExists, ws, [Lock ServiceMu, Unlock ServiceMu])
      else
        let user = \<lparr>User.ID = userID, Name = name, Email = email\<rparr>;
            wallet = \<lparr>UserID = userID, Balance = 0\<rparr>
        in (None,
            ws\<lparr>users := (users ws)(userID \<mapsto> user),
               wallets := (wallets ws)(userID \<mapsto> wallet)\<rparr>,
            [Lock ServiceMu, Unlock ServiceMu]))"

text \<open>\<open>fmt.Sprintf("%d", n)\<close> for an \<open>int64\<close>: decimal digits, a minus sign when negative.\<close>

fun digits10 :: "nat \<Rightarrow> string" where
  "digits10 n =
     (if n < 10 then [''0123456789'' ! n]
      else digits10 (n div 10) @ [''0123456789'' ! (n mod 10)])"

declare digits10.simps [simp del]

definition sprintf_d :: "int \<Rightarrow> string" where
  "sprintf_d n = (if n < 0 then CHR ''-'' # digits10 (nat (- n)) else digits10 (nat n))"

text \<open>
  \<open>generateTransactionID\<close> formats \<open>time.Now().UnixNano()\<close>; the clock reading is the
  argument \<open>nano\<close>.
\<close>

definition generateTransactionID :: "int \<Rightarrow> string" where
  "generateTransactionID nano = ''tx_'' @ sprintf_d nano"

definition recordTransaction :: "WalletService \<Rightarrow> Transaction \<Rightarrow> WalletService \<times> event list" where
  "recordTransaction ws tx =
     (ws\<lparr>transactions := transactions ws @ [tx]\<rparr>, [Lock ServiceMu, Unlock ServiceMu])"

text \<open>
  \<open>Deposit\<close>, \<open>Withdraw\<close> and \<open>Transfer\<close> read the clock twice while they build the
  transaction: \<open>nano\<close> is the reading of \<open>generateTransactionID\<close>, \<open>unix\<close> that of
  \<open>time.Now().Unix()\<close>. The deferred unlocks run at the return, last deferred first.
\<close>

definition Deposit ::
  "WalletService \<Rightarrow> string \<Rightarrow> decimal \<Rightarrow> string \<Rightarrow> int \<Rightarrow> int \<Rightarrow> error option outcome" where
  "Deposit ws userID decimalAmount description nano unix =
     (if decimalAmount \<le> 0 then (Some ErrInvalidAmount, ws, [])
      else
        let (userLock, ulm) = getLock (userLocks ws) userID;
            ws1 = ws\<lparr>userLocks := ulm\<rparr>;
            es1 = [Lock userLock, RLock ServiceMu, RUnlock ServiceMu]
        in case wallets ws1 userID of
             None \<Rightarrow> (Some ErrUserNotFound, ws1, es1 @ [Unlock userLock])
           | Some wallet \<Rightarrow>
               let wallet' = wallet\<lparr>Balance := Balance wallet + decimalAmount\<rparr>;
                   ws2 = ws1\<lparr>wallets := (wallets ws1)(userID \<mapsto> wallet')\<rparr>;
                   es2 = [Lock (WalletMu userID), SetBalance userID, Unlock (WalletMu userID)];
                   tx = \<lparr>ID = generateTransactionID nano,
                         FromUserID = userID,
                         ToUserID = userID,
                         Amount = decimalAmount,
                         Type = TransactionDeposit,
                         Description = description,
                         Timestamp = unix\<rparr>;
                   (ws3, es3) = recordTransaction ws2 tx
               in (None, ws3, es1 @ es2 @ es3 @ [Unlock userLock]))"

definition DepositDecimal ::
  "WalletService \<Rightarrow> string \<Rightarrow> decimal \<Rightarrow> string \<Rightarrow> int \<Rightarrow> int \<Rightarrow> error option outcome" where
  "DepositDecimal ws userID amount description nano unix =
     (if amount \<le> 0 then (Some ErrInvalidAmount, ws, [])
      else
        let (userLock, ulm) = getLock (userLocks ws) userID;
            ws1 = ws\<lparr>userLocks := ulm\<rparr>;
            es1 = [Lock userLock, RLock ServiceMu, RUnlock ServiceMu]
        in case wallets ws1 userID of
             None \<Rightarrow> (Some ErrUserNotFound, ws1, es1 @ [Unlock userLock])
           | Some wallet \<Rightarrow>
               let wallet' = wallet\<lparr>Balance := Balance wallet + amount\<rparr>;
                   ws2 = ws1\<lparr>wallets := (wallets ws1)(userID \<mapsto> wallet')\<rparr>;
                   es2 = [Lock (WalletMu userID), SetBalance userID, Unlock (WalletMu userID)];
                   tx = \<lparr>ID = generateTransactionID nano,
                         FromUserID = userID,
                         ToUserID = userID,
                         Amount = amount,
                         Type = TransactionDeposit,
                         Description = description,
                         Timestamp = unix\<rparr>;
                   (ws3, es3) = recordTransaction ws2 tx
               in (None, ws3, es1 @ es2 @ es3 @ [Unlock userLock]))"

definition Withdraw ::
  "WalletService \<Rightarrow> string \<Rightarrow> decimal \<Rightarrow> string \<Rightarrow> int \<Rightarrow> int \<Rightarrow> error option outcome" where
  "Withdraw ws userID decimalAmount description nano unix =
     (if decimalAmount \<le> 0 then (Some ErrInvalidAmount, ws, [])
      else
        let (userLock, ulm) = getLock (userLocks ws) userID;
            ws1 = ws\<lparr>userLocks := ulm\<rparr>;
            es1 = [Lock userLock, RLock ServiceMu, RUnlock ServiceMu]
        in case wallets ws1 userID of
             None \<Rightarrow> (Some ErrUserNotFound, ws1, es1 @ [Unlock userLock])
           | Some wallet \<Rightarrow>
               if Balance wallet < decimalAmount
               then (Some ErrInsufficientBalance, ws1,
                     es1 @ [Lock (WalletMu userID), Unlock (WalletMu userID), Unlock userLock])
               else
                 let wallet' = wallet\<lparr>Balance := Balance wallet - decimalAmount\<rparr>;
                     ws2 = ws1\<lparr>wallets := (wallets ws1)(userID \<mapsto> wallet')\<rparr>;
                     tx = \<lparr>ID = generateTransactionID nano,
                           FromUserID = userID,
                           ToUserID = userID,
                           Amount = decimalAmount,
                           Type = TransactionWithdraw,
                           Description = description,
                           Timestamp = unix\<rparr>;
                     (ws3, es3) = recordTransaction ws2 tx
                 in (None, ws3,
                     es1 @ [Lock (WalletMu userID), SetBalance userID] @ es3 @
                     [Unlock (WalletMu userID), Unlock userLock]))"

text \<open>\<open>userID1 < userID2\<close> is Go's comparison of strings: bytewise, a proper prefix first.\<close>

definition getOrderedLocks ::
  "WalletService \<Rightarrow> string \<Rightarrow> string \<Rightarrow> (mutex \<times> mutex) \<times> WalletService" where
  "getOrderedLocks ws userID1 userID2 =
     (let (lock1, ulm1) = getLock (userLocks ws) userID1;
          (lock2, ulm2) = getLock ulm1 userID2;
          ws' = ws\<lparr>userLocks := ulm2\<rparr>
      in if userID1 < userID2 then ((lock1, lock2), ws') else ((lock2, lock1), ws'))"

text \<open>
  The wallets map holds one \<open>*Wallet\<close> per id, created by \<open>CreateUser\<close> and never replaced,
  so \<open>fromWallet\<close> and \<open>toWallet\<close> of two different ids are different objects: a write
  through one pointer is the update of the map at that id.
\<close>

definition Transfer ::
  "WalletService \<Rightarrow> string \<Rightarrow> string \<Rightarrow> decimal \<Rightarrow> string \<Rightarrow> int \<Rightarrow> int \<Rightarrow> error option outcome" where
  "Transfer ws fromUserID toUserID decimalAmount description nano unix =
     (if decimalAmount \<le> 0 then (Some ErrInvalidAmount, ws, [])
      else if fromUserID = toUserID then (Some ErrSameUserTransfer, ws, [])
      else
        let es0 = [RLock ServiceMu, RUnlock ServiceMu]
        in case (wallets ws fromUserID, wallets ws toUserID) of
             (Some fromWallet, Some toWallet) \<Rightarrow>
               let ((firstLock, secondLock), ws1) = getOrderedLocks ws fromUserID toUserID;
                   es1 = es0 @ [Lock firstLock, Lock secondLock]
               in if Balance fromWallet < decimalAmount
                  then (Some ErrInsufficientBalance, ws1,
                        es1 @ [Lock (WalletMu fromUserID), Unlock (WalletMu fromUserID),
                               Unlock secondLock, Unlock firstLock])
                  else
                    let fromWallet' = fromWallet\<lparr>Balance := Balance fromWallet - decimalAmount\<rparr>;
                        ws2 = ws1\<lparr>wallets := (wallets ws1)(fromUserID \<mapsto> fromWallet')\<rparr>;
                        toWallet' = toWallet\<lparr>Balance := Balance toWallet + decimalAmount\<rparr>;
                        ws3 = ws2\<lparr>wallets := (wallets ws2)(toUserID \<mapsto> toWallet')\<rparr>;
                        es2 = [Lock (WalletMu fromUserID), SetBalance fromUserID,
                               Unlock (WalletMu fromUserID),
                               Lock (WalletMu toUserID), SetBalance toUserID,
                               Unlock (WalletMu toUserID)];
                        tx = \<lparr>ID = generateTransactionID nano,
                              FromUserID = fromUserID,
                              ToUserID = toUserID,
                              Amount = decimalAmount,
                              Type = TransactionTransfer,
                              Description = description,
                              Timestamp = unix\<rparr>;
                        (ws4, es4) = recordTransaction ws3 tx
                    in (None, ws4, es1 @ es2 @ es4 @ [Unlock secondLock, Unlock firstLock])
           | _ \<Rightarrow> (Some ErrUserNotFound, ws, es0))"

text \<open>
  The two readers hold the service's read lock (and the wallet's) and change nothing;
  they return their value and error only.
\<close>

definition GetBalanceDecimal :: "WalletService \<Rightarrow> string \<Rightarrow> decimal \<times> error option" where
  "GetBalanceDecimal ws userID =
     (case wallets ws userID of
        None \<Rightarrow> (0, Some ErrUserNotFound)
      | Some wallet \<Rightarrow> (Balance wallet, None))"

text \<open>
  The loop of \<open>GetTransactionHistory\<close>, with \<open>userTransactions\<close> as accumulator; Go's \<open>nil\<close>
  slice is the empty list.
\<close>

fun history_loop :: "string \<Rightarrow> Transaction list \<Rightarrow> Transaction list \<Rightarrow> Transaction list" where
  "history_loop userID userTransactions [] = userTransactions"
| "history_loop userID userTransactions (tx # rest) =
     (if FromUserID tx = userID \<or> ToUserID tx = userID
      then history_loop userID (userTransactions @ [tx]) rest
      else history_loop userID userTransactions rest)"

definition GetTransactionHistory ::
  "WalletService \<Rightarrow> string \<Rightarrow> Transaction list \<times> error option" where
  "GetTransactionHistory ws userID =
     (if users ws userID = None then ([], Some ErrUserNotFound)
      else (history_loop userID [] (transactions ws), None))"

section \<open>Sequences of calls\<close>

text \<open>
  A caller sees every error as a returned value and the service stays usable, so a
  sequence of calls runs each call on the state its predecessor left, whatever it
  returned. The readers leave the state as it is, so the five calls below are the ones
  that make the reachable states: \<open>exec NewWalletService cs\<close>.
\<close>

datatype call =
    CallCreateUser string string string
  | CallDeposit string decimal string int int
  | CallDepositDecimal string decimal string int int
  | CallWithdraw string decimal string int int
  | CallTransfer string string decimal string int int

fun step :: "WalletService \<Rightarrow> call \<Rightarrow> WalletService" where
  "step ws (CallCreateUser userID name email) = fst (snd (CreateUser ws userID name email))"
| "step ws (CallDeposit userID amount description nano unix) =
     fst (snd (Deposit ws userID amount description nano unix))"
| "step ws (CallDepositDecimal userID amount description nano unix) =
     fst (snd (DepositDecimal ws userID amount description nano unix))"
| "step ws (CallWithdraw userID amount description nano unix) =
     fst (snd (Withdraw ws userID amount description nano unix))"
| "step ws (CallTransfer fromUserID toUserID amount description nano unix) =
     fst (snd (Transfer ws fromUserID toUserID amount description nano unix))"

fun exec :: "WalletService \<Rightarrow> call list \<Rightarrow> WalletService" where
  "exec ws [] = ws"
| "exec ws (c # cs) = exec (step ws c) cs"

section \<open>The net of the transaction log\<close>

text \<open>
  The specification's sum for an account: its deposits plus the transfers that name it
  as destination, minus its withdrawals and the transfers that name it as source.
\<close>

definition sum_amounts :: "(Transaction \<Rightarrow> bool) \<Rightarrow> Transaction list \<Rightarrow> decimal" where
  "sum_amounts P txs = sum_list (map Amount (filter P txs))"

definition net_of_log :: "string \<Rightarrow> Transaction list \<Rightarrow> decimal" where
  "net_of_log uid txs =
       sum_amounts (\<lambda>t. Type t = TransactionDeposit \<and> ToUserID t = uid) txs
     + sum_amounts (\<lambda>t. Type t = TransactionTransfer \<and> ToUserID t = uid) txs
     - sum_amounts (\<lambda>t. Type t = TransactionWithdraw \<and> FromUserID t = uid) txs
     - sum_amounts (\<lambda>t. Type t = TransactionTransfer \<and> FromUserID t = uid) txs"

section \<open>Invariants of the reachable states\<close>

definition inv_dom :: "WalletService \<Rightarrow> bool" where
  "inv_dom ws \<longleftrightarrow> dom (users ws) = dom (wallets ws)"

definition inv_log :: "WalletService \<Rightarrow> bool" where
  "inv_log ws \<longleftrightarrow>
     (\<forall>t \<in> set (transactions ws). FromUserID t \<in> dom (wallets ws) \<and> ToUserID t \<in> dom (wallets ws))"

definition inv_bal :: "WalletService \<Rightarrow> bool" where
  "inv_bal ws \<longleftrightarrow>
     (\<forall>uid w. wallets ws uid = Some w \<longrightarrow> Balance w = net_of_log uid (transactions ws))"

definition inv_nonneg :: "WalletService \<Rightarrow> bool" where
  "inv_nonneg ws \<longleftrightarrow> (\<forall>uid w. wallets ws uid = Some w \<longrightarrow> 0 \<le> Balance w)"

definition wf_service :: "WalletService \<Rightarrow> bool" where
  "wf_service ws \<longleftrightarrow> inv_dom ws \<and> inv_log ws \<and> inv_bal ws \<and> inv_nonneg ws"

text \<open>Every stored lock is the mutex created for the id it is stored under.\<close>

definition locks_ok :: "userLockManager \<Rightarrow> bool" where
  "locks_ok ulm \<longleftrightarrow> (\<forall>uid l. locks ulm uid = Some l \<longrightarrow> l = UserMutex uid)"

definition inv_locks :: "WalletService \<Rightarrow> bool" where
  "inv_locks ws \<longleftrightarrow> locks_ok (userLocks ws)"

section \<open>A worked scenario\<close>

text \<open>
  Two accounts \<open>A\<close> and \<open>B\<close>; 100.50 is deposited into \<open>A\<close>, then 30.25 is transferred from
  \<open>A\<close> to \<open>B\<close>.
\<close>

definition scenario :: "call list" where
  "scenario =
     [CallCreateUser ''A'' ''Alice'' ''alice@example.com'',
      CallCreateUser ''B'' ''Bob'' ''bob@example.com'',
      CallDepositDecimal ''A'' (201 / 2) ''deposit'' 1000 1,
      CallTransfer ''A'' ''B'' (121 / 4) ''transfer'' 2000 2]"

text \<open>
  One account and two deposits whose calls of \<open>generateTransactionID\<close> read the same
  value of the clock.
\<close>

definition collision :: "call list" where
  "collision =
     [CallCreateUser ''A'' ''Alice'' ''alice@example.com'',
      CallDeposit ''A'' 5 ''first'' 1700000000000000000 1700000000,
      CallDeposit ''A'' 7 ''second'' 1700000000000000000 1700000000]"

section \<open>What each call does to the state\<close>

lemma DepositDecimal_eq: "DepositDecimal = Deposit"
  by (intro ext) (simp add: DepositDecimal_def Deposit_def)

lemma getLock_cases:
  "getLock ulm u = (l, ulm') \<Longrightarrow>
     (locks ulm u = Some l \<and> ulm' = ulm) \<or>
     (locks ulm u = None \<and> l = UserMutex u \<and> ulm' = ulm\<lparr>locks := (locks ulm)(u \<mapsto> UserMutex u)\<rparr>)"
  by (auto simp: getLock_def split: option.splits)

lemma Deposit_effect:
  "Deposit ws u a d n x = (err, ws', tr) \<Longrightarrow>
     users ws' = users ws \<and>
     (case err of
        Some e \<Rightarrow> wallets ws' = wallets ws \<and> transactions ws' = transactions ws
      | None \<Rightarrow> 0 < a \<and> (\<exists>w. wallets ws u = Some w \<and>
           wallets ws' = (wallets ws)(u \<mapsto> w\<lparr>Balance := Balance w + a\<rparr>) \<and>
           transactions ws' = transactions ws @
             [\<lparr>ID = generateTransactionID n, FromUserID = u, ToUserID = u, Amount = a,
               Type = TransactionDeposit, Description = d, Timestamp = x\<rparr>]))"
  by (auto simp: Deposit_def recordTransaction_def Let_def split: if_splits prod.splits option.splits)

lemma Withdraw_effect:
  "Withdraw ws u a d n x = (err, ws', tr) \<Longrightarrow>
     users ws' = users ws \<and>
     (case err of
        Some e \<Rightarrow> wallets ws' = wallets ws \<and> transactions ws' = transactions ws
      | None \<Rightarrow> 0 < a \<and> (\<exists>w. wallets ws u = Some w \<and> a \<le> Balance w \<and>
           wallets ws' = (wallets ws)(u \<mapsto> w\<lparr>Balance := Balance w - a\<rparr>) \<and>
           transactions ws' = transactions ws @
             [\<lparr>ID = generateTransactionID n, FromUserID = u, ToUserID = u, Amount = a,
               Type = TransactionWithdraw, Description = d, Timestamp = x\<rparr>]))"
  by (auto simp: Withdraw_def recordTransaction_def Let_def split: if_splits prod.splits option.splits)

lemma getOrderedLocks_fields:
  "getOrderedLocks ws a b = (ls, ws') \<Longrightarrow>
     users ws' = users ws \<and> wallets ws' = wallets ws \<and> transactions ws' = transactions ws"
  by (auto simp: getOrderedLocks_def Let_def split: if_splits prod.splits)

lemma Transfer_effect:
  "Transfer ws f t a d n x = (err, ws', tr) \<Longrightarrow>
     users ws' = users ws \<and>
     (case err of
        Some e \<Rightarrow> wallets ws' = wallets ws \<and> transactions ws' = transactions ws
      | None \<Rightarrow> 0 < a \<and> f \<noteq> t \<and> (\<exists>wf wt. wallets ws f = Some wf \<and> wallets ws t = Some wt \<and>
           a \<le> Balance wf \<and>
           wallets ws' = (wallets ws)(f \<mapsto> wf\<lparr>Balance := Balance wf - a\<rparr>,
                                      t \<mapsto> wt\<lparr>Balance := Balance wt + a\<rparr>) \<and>
           transactions ws' = transactions ws @
             [\<lparr>ID = generateTransactionID n, FromUserID = f, ToUserID = t, Amount = a,
               Type = TransactionTransfer, Description = d, Timestamp = x\<rparr>]))"
  by (auto simp: Transfer_def recordTransaction_def Let_def
           dest!: getOrderedLocks_fields split: if_splits prod.splits option.splits)

lemma CreateUser_effect:
  "CreateUser ws u nm em = (err, ws', tr) \<Longrightarrow>
     transactions ws' = transactions ws \<and> userLocks ws' = userLocks ws \<and>
     (case err of
        Some e \<Rightarrow> e = ErrUserAlreadyExists \<and> users ws u \<noteq> None \<and> ws' = ws
      | None \<Rightarrow> users ws u = None \<and>
           users ws' = (users ws)(u \<mapsto> \<lparr>User.ID = u, Name = nm, Email = em\<rparr>) \<and>
           wallets ws' = (wallets ws)(u \<mapsto> \<lparr>UserID = u, Balance = 0\<rparr>))"
  by (auto simp: CreateUser_def Let_def split: if_splits)

section \<open>The invariants hold in every reachable state\<close>

lemma sum_amounts_snoc:
  "sum_amounts P (txs @ [t]) = sum_amounts P txs + (if P t then Amount t else 0)"
  by (simp add: sum_amounts_def)

lemma net_of_log_snoc:
  "net_of_log uid (txs @ [t]) =
     net_of_log uid txs
     + (if Type t = TransactionDeposit \<and> ToUserID t = uid then Amount t else 0)
     + (if Type t = TransactionTransfer \<and> ToUserID t = uid then Amount t else 0)
     - (if Type t = TransactionWithdraw \<and> FromUserID t = uid then Amount t else 0)
     - (if Type t = TransactionTransfer \<and> FromUserID t = uid then Amount t else 0)"
  by (simp add: net_of_log_def sum_amounts_snoc)

lemma sum_amounts_none: "\<forall>t \<in> set txs. \<not> P t \<Longrightarrow> sum_amounts P txs = 0"
  by (induction txs) (simp_all add: sum_amounts_def)

lemma net_of_log_unmentioned:
  assumes "\<forall>t \<in> set txs. FromUserID t \<noteq> uid \<and> ToUserID t \<noteq> uid"
  shows "net_of_log uid txs = 0"
  using assms by (simp add: net_of_log_def sum_amounts_none)

lemma wf_New: "wf_service NewWalletService"
  by (simp add: wf_service_def inv_dom_def inv_log_def inv_bal_def inv_nonneg_def NewWalletService_def)

lemma wf_CreateUser:
  assumes "wf_service ws" and "CreateUser ws u nm em = (err, ws', tr)"
  shows "wf_service ws'"
proof (cases err)
  case (Some e)
  with CreateUser_effect[OF assms(2)] assms(1) show ?thesis by simp
next
  case None
  from CreateUser_effect[OF assms(2)] None
  have tx: "transactions ws' = transactions ws"
    and fresh: "users ws u = None"
    and us: "users ws' = (users ws)(u \<mapsto> \<lparr>User.ID = u, Name = nm, Email = em\<rparr>)"
    and wl: "wallets ws' = (wallets ws)(u \<mapsto> \<lparr>UserID = u, Balance = 0\<rparr>)"
    by simp_all
  from assms(1) have d: "inv_dom ws" and l: "inv_log ws" and b: "inv_bal ws" and n: "inv_nonneg ws"
    by (simp_all add: wf_service_def)
  from d fresh have nw: "wallets ws u = None" by (auto simp: inv_dom_def)
  have "inv_dom ws'" using d by (simp add: inv_dom_def us wl)
  moreover have "inv_log ws'" using l by (auto simp: inv_log_def tx wl)
  moreover have "inv_nonneg ws'" using n by (auto simp: inv_nonneg_def wl)
  moreover have "inv_bal ws'"
  proof -
    have "\<forall>t \<in> set (transactions ws). FromUserID t \<noteq> u \<and> ToUserID t \<noteq> u"
      using l nw by (auto simp: inv_log_def)
    then have "net_of_log u (transactions ws) = 0" by (rule net_of_log_unmentioned)
    then show ?thesis using b by (auto simp: inv_bal_def tx wl)
  qed
  ultimately show ?thesis by (simp add: wf_service_def)
qed

lemma wf_Deposit:
  assumes "wf_service ws" and "Deposit ws u a d n x = (err, ws', tr)"
  shows "wf_service ws'"
proof (cases err)
  case (Some e)
  with Deposit_effect[OF assms(2)] assms(1) show ?thesis
    by (auto simp: wf_service_def inv_dom_def inv_log_def inv_bal_def inv_nonneg_def)
next
  case None
  from Deposit_effect[OF assms(2)] None obtain w where
    us: "users ws' = users ws" and pos: "0 < a" and w: "wallets ws u = Some w"
    and wl: "wallets ws' = (wallets ws)(u \<mapsto> w\<lparr>Balance := Balance w + a\<rparr>)"
    and tx: "transactions ws' = transactions ws @
             [\<lparr>ID = generateTransactionID n, FromUserID = u, ToUserID = u, Amount = a,
               Type = TransactionDeposit, Description = d, Timestamp = x\<rparr>]"
    by auto
  from assms(1) have i: "inv_dom ws" "inv_log ws" "inv_bal ws" "inv_nonneg ws"
    by (simp_all add: wf_service_def)
  have "inv_dom ws'" using i(1) w by (auto simp: inv_dom_def us wl)
  moreover have "inv_log ws'" using i(2) w by (auto simp: inv_log_def tx wl)
  moreover have "inv_nonneg ws'" using i(4) w pos by (auto simp: inv_nonneg_def wl)
  moreover have "inv_bal ws'" using i(3) w by (auto simp: inv_bal_def tx wl net_of_log_snoc)
  ultimately show ?thesis by (simp add: wf_service_def)
qed

lemma wf_Withdraw:
  assumes "wf_service ws" and "Withdraw ws u a d n x = (err, ws', tr)"
  shows "wf_service ws'"
proof (cases err)
  case (Some e)
  with Withdraw_effect[OF assms(2)] assms(1) show ?thesis
    by (auto simp: wf_service_def inv_dom_def inv_log_def inv_bal_def inv_nonneg_def)
next
  case None
  from Withdraw_effect[OF assms(2)] None obtain w where
    us: "users ws' = users ws" and pos: "0 < a" and w: "wallets ws u = Some w"
    and le: "a \<le> Balance w"
    and wl: "wallets ws' = (wallets ws)(u \<mapsto> w\<lparr>Balance := Balance w - a\<rparr>)"
    and tx: "transactions ws' = transactions ws @
             [\<lparr>ID = generateTransactionID n, FromUserID = u, ToUserID = u, Amount = a,
               Type = TransactionWithdraw, Description = d, Timestamp = x\<rparr>]"
    by auto
  from assms(1) have i: "inv_dom ws" "inv_log ws" "inv_bal ws" "inv_nonneg ws"
    by (simp_all add: wf_service_def)
  have "inv_dom ws'" using i(1) w by (auto simp: inv_dom_def us wl)
  moreover have "inv_log ws'" using i(2) w by (auto simp: inv_log_def tx wl)
  moreover have "inv_nonneg ws'" using i(4) w le by (auto simp: inv_nonneg_def wl)
  moreover have "inv_bal ws'" using i(3) w by (auto simp: inv_bal_def tx wl net_of_log_snoc)
  ultimately show ?thesis by (simp add: wf_service_def)
qed

lemma wf_Transfer:
  assumes "wf_service ws" and "Transfer ws f t a d n x = (err, ws', tr)"
  shows "wf_service ws'"
proof (cases err)
  case (Some e)
  with Transfer_effect[OF assms(2)] assms(1) show ?thesis
    by (auto simp: wf_service_def inv_dom_def inv_log_def inv_bal_def inv_nonneg_def)
next
  case None
  from Transfer_effect[OF assms(2)] None obtain wf wt where
    us: "users ws' = users ws" and pos: "0 < a" and ne: "f \<noteq> t"
    and w: "wallets ws f = Some wf" "wallets ws t = Some wt"
    and le: "a \<le> Balance wf"
    and wl: "wallets ws' = (wallets ws)(f \<mapsto> wf\<lparr>Balance := Balance wf - a\<rparr>,
                                      t \<mapsto> wt\<lparr>Balance := Balance wt + a\<rparr>)"
    and tx: "transactions ws' = transactions ws @
             [\<lparr>ID = generateTransactionID n, FromUserID = f, ToUserID = t, Amount = a,
               Type = TransactionTransfer, Description = d, Timestamp = x\<rparr>]"
    by auto
  from assms(1) have i: "inv_dom ws" "inv_log ws" "inv_bal ws" "inv_nonneg ws"
    by (simp_all add: wf_service_def)
  have "inv_dom ws'" using i(1) w by (auto simp: inv_dom_def us wl)
  moreover have "inv_log ws'" using i(2) w by (auto simp: inv_log_def tx wl)
  moreover have "inv_nonneg ws'" using i(4) w le pos ne by (auto simp: inv_nonneg_def wl)
  moreover have "inv_bal ws'" using i(3) w ne by (auto simp: inv_bal_def tx wl net_of_log_snoc)
  ultimately show ?thesis by (simp add: wf_service_def)
qed

lemma wf_step: "wf_service ws \<Longrightarrow> wf_service (step ws c)"
proof (cases c)
  case (CallCreateUser u nm em)
  assume "wf_service ws"
  then show ?thesis using CallCreateUser wf_CreateUser[of ws u nm em]
    by (cases "CreateUser ws u nm em") simp
next
  case (CallDeposit u a d n x)
  assume "wf_service ws"
  then show ?thesis using CallDeposit wf_Deposit[of ws u a d n x]
    by (cases "Deposit ws u a d n x") simp
next
  case (CallDepositDecimal u a d n x)
  assume "wf_service ws"
  then show ?thesis using CallDepositDecimal wf_Deposit[of ws u a d n x]
    by (cases "Deposit ws u a d n x") (simp add: DepositDecimal_eq)
next
  case (CallWithdraw u a d n x)
  assume "wf_service ws"
  then show ?thesis using CallWithdraw wf_Withdraw[of ws u a d n x]
    by (cases "Withdraw ws u a d n x") simp
next
  case (CallTransfer f t a d n x)
  assume "wf_service ws"
  then show ?thesis using CallTransfer wf_Transfer[of ws f t a d n x]
    by (cases "Transfer ws f t a d n x") simp
qed

lemma wf_exec: "wf_service ws \<Longrightarrow> wf_service (exec ws cs)"
  by (induction cs arbitrary: ws) (simp_all add: wf_step)

lemma wf_reachable: "wf_service (exec NewWalletService cs)"
  by (rule wf_exec[OF wf_New])

section \<open>The lock table\<close>

lemma getLock_ok:
  assumes "locks_ok ulm"
  shows "fst (getLock ulm u) = UserMutex u" and "locks_ok (snd (getLock ulm u))"
  using assms by (auto simp: locks_ok_def getLock_def split: option.splits)

lemma getLock_other:
  "u \<noteq> v \<Longrightarrow> fst (getLock (snd (getLock ulm u)) v) = fst (getLock ulm v)"
  by (simp add: getLock_def split: option.splits)

lemma getLock_again: "fst (getLock (snd (getLock ulm u)) u) = fst (getLock ulm u)"
  by (simp add: getLock_def split: option.splits)

lemma getOrderedLocks_fst:
  "fst (getOrderedLocks ws a b) =
     (if a < b then (fst (getLock (userLocks ws) a), fst (getLock (snd (getLock (userLocks ws) a)) b))
      else (fst (getLock (snd (getLock (userLocks ws) a)) b), fst (getLock (userLocks ws) a)))"
  by (simp add: getOrderedLocks_def Let_def split: prod.splits)

lemma getOrderedLocks_userLocks:
  "userLocks (snd (getOrderedLocks ws a b)) = snd (getLock (snd (getLock (userLocks ws) a)) b)"
  by (simp add: getOrderedLocks_def Let_def split: prod.splits)

lemma getOrderedLocks_min_max:
  "fst (getOrderedLocks ws a b) =
     (fst (getLock (userLocks ws) (min a b)), fst (getLock (userLocks ws) (max a b)))"
proof (cases "a = b")
  case True
  then show ?thesis by (simp add: getOrderedLocks_fst getLock_again)
next
  case False
  then show ?thesis by (auto simp: getOrderedLocks_fst getLock_other min_def max_def)
qed

lemma CreateUser_userLocks:
  "userLocks (fst (snd (CreateUser ws u nm em))) = userLocks ws"
  by (simp add: CreateUser_def Let_def)

lemma Deposit_userLocks:
  "userLocks (fst (snd (Deposit ws u a d n x))) =
     (if a \<le> 0 then userLocks ws else snd (getLock (userLocks ws) u))"
  by (simp add: Deposit_def recordTransaction_def Let_def split: prod.splits option.splits)

lemma Withdraw_userLocks:
  "userLocks (fst (snd (Withdraw ws u a d n x))) =
     (if a \<le> 0 then userLocks ws else snd (getLock (userLocks ws) u))"
  by (simp add: Withdraw_def recordTransaction_def Let_def split: prod.splits option.splits)

lemma Transfer_userLocks:
  "userLocks (fst (snd (Transfer ws f t a d n x))) =
     (if a \<le> 0 \<or> f = t \<or> wallets ws f = None \<or> wallets ws t = None then userLocks ws
      else snd (getLock (snd (getLock (userLocks ws) f)) t))"
proof -
  obtain ls ws1 where g: "getOrderedLocks ws f t = (ls, ws1)"
    by (cases "getOrderedLocks ws f t")
  from getOrderedLocks_userLocks[of ws f t] g
  have u: "userLocks ws1 = snd (getLock (snd (getLock (userLocks ws) f)) t)" by simp
  show ?thesis
    by (simp add: Transfer_def recordTransaction_def Let_def g u split: prod.splits option.splits)
qed

lemma inv_locks_step: "inv_locks ws \<Longrightarrow> inv_locks (step ws c)"
  by (cases c)
     (simp_all add: inv_locks_def CreateUser_userLocks Deposit_userLocks DepositDecimal_eq
                    Withdraw_userLocks Transfer_userLocks getLock_ok)

lemma inv_locks_exec: "inv_locks ws \<Longrightarrow> inv_locks (exec ws cs)"
  by (induction cs arbitrary: ws) (simp_all add: inv_locks_step)

lemma inv_locks_reachable: "inv_locks (exec NewWalletService cs)"
  by (rule inv_locks_exec) (simp add: inv_locks_def locks_ok_def NewWalletService_def)

lemma Transfer_trace:
  "snd (snd (Transfer ws f t a d n x)) = [] \<or>
   snd (snd (Transfer ws f t a d n x)) = [RLock ServiceMu, RUnlock ServiceMu] \<or>
   (\<exists>rest. snd (snd (Transfer ws f t a d n x)) =
      [RLock ServiceMu, RUnlock ServiceMu,
       Lock (fst (fst (getOrderedLocks ws f t))), Lock (snd (fst (getOrderedLocks ws f t)))] @ rest)"
  by (cases "getOrderedLocks ws f t")
     (auto simp: Transfer_def recordTransaction_def Let_def split: prod.splits option.splits)

section \<open>The insufficient-balance paths\<close>

lemma Withdraw_insufficient:
  assumes "wallets ws u = Some w" and "Balance w < a" and "0 < a"
  shows "fst (Withdraw ws u a d n x) = Some ErrInsufficientBalance \<and>
         users (fst (snd (Withdraw ws u a d n x))) = users ws \<and>
         wallets (fst (snd (Withdraw ws u a d n x))) = wallets ws \<and>
         transactions (fst (snd (Withdraw ws u a d n x))) = transactions ws"
  using assms by (simp add: Withdraw_def Let_def split: prod.splits)

lemma Transfer_insufficient:
  assumes "wallets ws f = Some w" and "Balance w < a" and "0 < a"
    and "f \<noteq> t" and "wallets ws t \<noteq> None"
  shows "fst (Transfer ws f t a d n x) = Some ErrInsufficientBalance \<and>
         users (fst (snd (Transfer ws f t a d n x))) = users ws \<and>
         wallets (fst (snd (Transfer ws f t a d n x))) = wallets ws \<and>
         transactions (fst (snd (Transfer ws f t a d n x))) = transactions ws"
proof -
  obtain ls ws1 where g: "getOrderedLocks ws f t = (ls, ws1)"
    by (cases "getOrderedLocks ws f t")
  from getOrderedLocks_fields[OF g] assms show ?thesis
    by (auto simp: Transfer_def Let_def g split: prod.splits)
qed

section \<open>The scenario, evaluated\<close>

lemmas run_defs =
  scenario_def NewWalletService_def CreateUser_def Deposit_def DepositDecimal_def
  Withdraw_def Transfer_def getOrderedLocks_def getLock_def recordTransaction_def Let_def

lemma scenario_wallets:
  "wallets (exec NewWalletService scenario) =
     [''A'' \<mapsto> \<lparr>UserID = ''A'', Balance = 281 / 4\<rparr>, ''B'' \<mapsto> \<lparr>UserID = ''B'', Balance = 121 / 4\<rparr>]"
  by (simp add: run_defs fun_upd_twist)

lemma scenario_transactions:
  "transactions (exec NewWalletService scenario) =
     [\<lparr>ID = generateTransactionID 1000, FromUserID = ''A'', ToUserID = ''A'', Amount = 201 / 2,
       Type = TransactionDeposit, Description = ''deposit'', Timestamp = 1\<rparr>,
      \<lparr>ID = generateTransactionID 2000, FromUserID = ''A'', ToUserID = ''B'', Amount = 121 / 4,
       Type = TransactionTransfer, Description = ''transfer'', Timestamp = 2\<rparr>]"
  by (simp add: run_defs)

lemma scenario_users:
  "users (exec NewWalletService scenario) =
     [''A'' \<mapsto> \<lparr>User.ID = ''A'', Name = ''Alice'', Email = ''alice@example.com''\<rparr>,
      ''B'' \<mapsto> \<lparr>User.ID = ''B'', Name = ''Bob'', Email = ''bob@example.com''\<rparr>]"
  by (simp add: run_defs)

lemma scenario_locks:
  "locks (userLocks (exec NewWalletService scenario)) =
     [''A'' \<mapsto> UserMutex ''A'', ''B'' \<mapsto> UserMutex ''B'']"
  by (simp add: run_defs)

lemma scenario_transfer_back_trace:
  "snd (snd (Transfer (exec NewWalletService scenario) ''B'' ''A'' 10 ''back'' 3000 3)) =
     [RLock ServiceMu, RUnlock ServiceMu, Lock (UserMutex ''A''), Lock (UserMutex ''B''),
      Lock (WalletMu ''B''), SetBalance ''B'', Unlock (WalletMu ''B''),
      Lock (WalletMu ''A''), SetBalance ''A'', Unlock (WalletMu ''A''),
      Lock ServiceMu, Unlock ServiceMu, Unlock (UserMutex ''B''), Unlock (UserMutex ''A'')]"
  by (simp add: Transfer_def getOrderedLocks_def getLock_def recordTransaction_def Let_def
                scenario_wallets scenario_locks)

lemma history_loop_filter:
  "history_loop userID acc txs =
     acc @ filter (\<lambda>tx. FromUserID tx = userID \<or> ToUserID tx = userID) txs"
  by (induction txs arbitrary: acc) simp_all

section \<open>Balances and the transaction log\<close>

text \<open>
  C1: in every state reached from a fresh service by a sequence of calls, the balance
  that \<open>GetBalanceDecimal\<close> returns for an account equals the net of the log for it: its deposits
  plus its incoming transfers, minus its withdrawals and its outgoing transfers.
\<close>

theorem balance_is_net_of_log:
  assumes "GetBalanceDecimal (exec NewWalletService cs) uid = (b, None)"
  shows "b = net_of_log uid (transactions (exec NewWalletService cs))"
proof -
  have "inv_bal (exec NewWalletService cs)"
    using wf_reachable[of cs] by (simp add: wf_service_def)
  with assms show ?thesis
    by (auto simp: GetBalanceDecimal_def inv_bal_def split: option.splits)
qed

theorem balance_is_net_of_log_witness:
  "GetBalanceDecimal (exec NewWalletService scenario) ''A'' = (281 / 4, None) \<and>
   net_of_log ''A'' (transactions (exec NewWalletService scenario)) = 281 / 4"
proof -
  have h: "GetBalanceDecimal (exec NewWalletService scenario) ''A'' = (281 / 4, None)"
    by (simp add: GetBalanceDecimal_def scenario_wallets)
  from balance_is_net_of_log[OF h] h show ?thesis by simp
qed

text \<open>
  C2: a \<open>Transfer\<close> that returns no error lowers the balance of the source by exactly
  the amount, raises the balance of the destination by exactly the amount, and leaves the
  sum of the two balances as it was.
\<close>

theorem transfer_conservation:
  assumes "Transfer ws fromUserID toUserID amount d n x = (None, ws', tr)"
  shows "GetBalanceDecimal ws' fromUserID = (fst (GetBalanceDecimal ws fromUserID) - amount, None) \<and>
         GetBalanceDecimal ws' toUserID = (fst (GetBalanceDecimal ws toUserID) + amount, None) \<and>
         fst (GetBalanceDecimal ws' fromUserID) + fst (GetBalanceDecimal ws' toUserID) =
           fst (GetBalanceDecimal ws fromUserID) + fst (GetBalanceDecimal ws toUserID)"
  using Transfer_effect[OF assms] by (auto simp: GetBalanceDecimal_def)

theorem transfer_conservation_witness:
  "fst (Transfer (exec NewWalletService scenario) ''A'' ''B'' 20 ''rent'' 3000 3) = None \<and>
   GetBalanceDecimal (exec NewWalletService scenario) ''A'' = (281 / 4, None) \<and>
   GetBalanceDecimal (exec NewWalletService scenario) ''B'' = (121 / 4, None) \<and>
   GetBalanceDecimal
     (fst (snd (Transfer (exec NewWalletService scenario) ''A'' ''B'' 20 ''rent'' 3000 3))) ''A'' =
     (201 / 4, None) \<and>
   GetBalanceDecimal
     (fst (snd (Transfer (exec NewWalletService scenario) ''A'' ''B'' 20 ''rent'' 3000 3))) ''B'' =
     (201 / 4, None)"
proof -
  have ok: "fst (Transfer (exec NewWalletService scenario) ''A'' ''B'' 20 ''rent'' 3000 3) = None"
    by (simp add: Transfer_def scenario_wallets getOrderedLocks_def getLock_def
                  recordTransaction_def Let_def split: prod.splits)
  have a: "GetBalanceDecimal (exec NewWalletService scenario) ''A'' = (281 / 4, None)"
    and b: "GetBalanceDecimal (exec NewWalletService scenario) ''B'' = (121 / 4, None)"
    by (simp_all add: GetBalanceDecimal_def scenario_wallets)
  obtain ws' tr where
    t: "Transfer (exec NewWalletService scenario) ''A'' ''B'' 20 ''rent'' 3000 3 = (None, ws', tr)"
    using ok by (cases "Transfer (exec NewWalletService scenario) ''A'' ''B'' 20 ''rent'' 3000 3") auto
  from transfer_conservation[OF t] ok a b t show ?thesis by simp
qed

text \<open>
  C3: as stated (every \<open>Transfer\<close> whose source holds less than the amount returns
  \<open>ErrInsufficientBalance\<close>) the claim fails when the destination is the source itself or is
  not registered: those checks come first and return \<open>ErrSameUserTransfer\<close> and
  \<open>ErrUserNotFound\<close>.
\<close>

theorem insufficient_balance_other_errors:
  "GetBalanceDecimal (exec NewWalletService scenario) ''A'' = (281 / 4, None) \<and>
   (281 / 4 :: decimal) < 100 \<and>
   fst (Transfer (exec NewWalletService scenario) ''A'' ''A'' 100 ''self'' 3000 3) =
     Some ErrSameUserTransfer \<and>
   fst (Transfer (exec NewWalletService scenario) ''A'' ''ghost'' 100 ''gift'' 3000 3) =
     Some ErrUserNotFound"
  by (simp add: GetBalanceDecimal_def Transfer_def scenario_wallets)

text \<open>
  C3: amended: in every state reached from a fresh service, when the balance of the
  source is less than the amount, \<open>Withdraw\<close> returns \<open>ErrInsufficientBalance\<close>, and so does
  \<open>Transfer\<close> to a registered destination other than the source; either call leaves every
  wallet and the transaction log as they were.
\<close>

theorem insufficient_balance_rejected:
  assumes "ws = exec NewWalletService cs"
    and "GetBalanceDecimal ws userID = (balance, None)"
    and "balance < amount"
  shows "fst (Withdraw ws userID amount d n x) = Some ErrInsufficientBalance \<and>
         wallets (fst (snd (Withdraw ws userID amount d n x))) = wallets ws \<and>
         transactions (fst (snd (Withdraw ws userID amount d n x))) = transactions ws \<and>
         (toUserID \<noteq> userID \<and> wallets ws toUserID \<noteq> None \<longrightarrow>
            fst (Transfer ws userID toUserID amount d n x) = Some ErrInsufficientBalance \<and>
            wallets (fst (snd (Transfer ws userID toUserID amount d n x))) = wallets ws \<and>
            transactions (fst (snd (Transfer ws userID toUserID amount d n x))) = transactions ws)"
proof -
  from assms(2) obtain w where w: "wallets ws userID = Some w" and b: "Balance w = balance"
    by (auto simp: GetBalanceDecimal_def split: option.splits)
  have "inv_nonneg ws"
    using wf_reachable[of cs] assms(1) by (simp add: wf_service_def)
  with w have "0 \<le> Balance w" by (auto simp: inv_nonneg_def)
  with b assms(3) have pos: "0 < amount" and lt: "Balance w < amount" by simp_all
  from Withdraw_insufficient[OF w lt pos, of d n x]
  have 1: "fst (Withdraw ws userID amount d n x) = Some ErrInsufficientBalance"
    and 2: "wallets (fst (snd (Withdraw ws userID amount d n x))) = wallets ws"
    and 3: "transactions (fst (snd (Withdraw ws userID amount d n x))) = transactions ws"
    by simp_all
  have 4: "toUserID \<noteq> userID \<and> wallets ws toUserID \<noteq> None \<longrightarrow>
            fst (Transfer ws userID toUserID amount d n x) = Some ErrInsufficientBalance \<and>
            wallets (fst (snd (Transfer ws userID toUserID amount d n x))) = wallets ws \<and>
            transactions (fst (snd (Transfer ws userID toUserID amount d n x))) = transactions ws"
  proof
    assume h: "toUserID \<noteq> userID \<and> wallets ws toUserID \<noteq> None"
    then have "userID \<noteq> toUserID" and "wallets ws toUserID \<noteq> None" by auto
    from Transfer_insufficient[OF w lt pos this, of d n x] show
      "fst (Transfer ws userID toUserID amount d n x) = Some ErrInsufficientBalance \<and>
       wallets (fst (snd (Transfer ws userID toUserID amount d n x))) = wallets ws \<and>
       transactions (fst (snd (Transfer ws userID toUserID amount d n x))) = transactions ws"
      by simp
  qed
  from 1 2 3 4 show ?thesis by blast
qed

theorem insufficient_balance_rejected_witness:
  "GetBalanceDecimal (exec NewWalletService scenario) ''B'' = (121 / 4, None) \<and>
   (121 / 4 :: decimal) < 50 \<and>
   ''A'' \<noteq> ''B'' \<and> wallets (exec NewWalletService scenario) ''A'' \<noteq> None \<and>
   fst (Withdraw (exec NewWalletService scenario) ''B'' 50 ''cash'' 3000 3) =
     Some ErrInsufficientBalance \<and>
   wallets (fst (snd (Withdraw (exec NewWalletService scenario) ''B'' 50 ''cash'' 3000 3))) =
     wallets (exec NewWalletService scenario) \<and>
   transactions (fst (snd (Withdraw (exec NewWalletService scenario) ''B'' 50 ''cash'' 3000 3))) =
     transactions (exec NewWalletService scenario) \<and>
   fst (Transfer (exec NewWalletService scenario) ''B'' ''A'' 50 ''rent'' 3000 3) =
     Some ErrInsufficientBalance \<and>
   wallets (fst (snd (Transfer (exec NewWalletService scenario) ''B'' ''A'' 50 ''rent'' 3000 3))) =
     wallets (exec NewWalletService scenario) \<and>
   transactions (fst (snd (Transfer (exec NewWalletService scenario) ''B'' ''A'' 50 ''rent'' 3000 3))) =
     transactions (exec NewWalletService scenario)"
proof -
  have r: "exec NewWalletService scenario = exec NewWalletService scenario" by (rule refl)
  have b: "GetBalanceDecimal (exec NewWalletService scenario) ''B'' = (121 / 4, None)"
    by (simp add: GetBalanceDecimal_def scenario_wallets)
  have lt: "(121 / 4 :: decimal) < 50" by simp
  have ne: "''A'' \<noteq> ''B''" by simp
  have reg: "wallets (exec NewWalletService scenario) ''A'' \<noteq> None"
    by (simp add: scenario_wallets)
  note t1 = insufficient_balance_rejected[OF r b lt, of "''cash''" 3000 3 "''A''"]
  note t2 = insufficient_balance_rejected[OF r b lt, of "''rent''" 3000 3 "''A''"]
  from t1 have w: "fst (Withdraw (exec NewWalletService scenario) ''B'' 50 ''cash'' 3000 3) =
       Some ErrInsufficientBalance \<and>
     wallets (fst (snd (Withdraw (exec NewWalletService scenario) ''B'' 50 ''cash'' 3000 3))) =
       wallets (exec NewWalletService scenario) \<and>
     transactions (fst (snd (Withdraw (exec NewWalletService scenario) ''B'' 50 ''cash'' 3000 3))) =
       transactions (exec NewWalletService scenario)"
    by blast
  from t2 ne reg have t: "fst (Transfer (exec NewWalletService scenario) ''B'' ''A'' 50 ''rent'' 3000 3) =
       Some ErrInsufficientBalance \<and>
     wallets (fst (snd (Transfer (exec NewWalletService scenario) ''B'' ''A'' 50 ''rent'' 3000 3))) =
       wallets (exec NewWalletService scenario) \<and>
     transactions (fst (snd (Transfer (exec NewWalletService scenario) ''B'' ''A'' 50 ''rent'' 3000 3))) =
       transactions (exec NewWalletService scenario)"
    by blast
  from b lt ne reg w t show ?thesis by blast
qed


section \<open>Validation\<close>

text \<open>
  C5: with an amount that is zero or negative, \<open>Deposit\<close>, \<open>DepositDecimal\<close>, \<open>Withdraw\<close>
  and \<open>Transfer\<close> return \<open>ErrInvalidAmount\<close> for every user id, registered or not; the trace
  is empty, so no lock was taken, and the service is returned as it was.
\<close>

theorem invalid_amount_rejected:
  assumes "amount \<le> 0"
  shows "Deposit ws userID amount d n x = (Some ErrInvalidAmount, ws, []) \<and>
         DepositDecimal ws userID amount d n x = (Some ErrInvalidAmount, ws, []) \<and>
         Withdraw ws userID amount d n x = (Some ErrInvalidAmount, ws, []) \<and>
         Transfer ws userID toUserID amount d n x = (Some ErrInvalidAmount, ws, [])"
  using assms by (simp add: Deposit_def DepositDecimal_def Withdraw_def Transfer_def)

theorem invalid_amount_rejected_witness:
  "(- 50 :: decimal) \<le> 0 \<and>
   Deposit (exec NewWalletService scenario) ''ghost'' (- 50) ''d'' 3000 3 =
     (Some ErrInvalidAmount, exec NewWalletService scenario, []) \<and>
   DepositDecimal (exec NewWalletService scenario) ''ghost'' (- 50) ''d'' 3000 3 =
     (Some ErrInvalidAmount, exec NewWalletService scenario, []) \<and>
   Withdraw (exec NewWalletService scenario) ''ghost'' (- 50) ''d'' 3000 3 =
     (Some ErrInvalidAmount, exec NewWalletService scenario, []) \<and>
   Transfer (exec NewWalletService scenario) ''ghost'' ''A'' (- 50) ''d'' 3000 3 =
     (Some ErrInvalidAmount, exec NewWalletService scenario, [])"
proof -
  have h: "(- 50 :: decimal) \<le> 0" by simp
  from invalid_amount_rejected[OF h, of "exec NewWalletService scenario" "''ghost''" "''d''" 3000 3 "''A''"] h
  show ?thesis by simp
qed

text \<open>
  C6: as stated (every \<open>Transfer\<close> from an account to itself returns
  \<open>ErrSameUserTransfer\<close>) the claim fails when the amount is not positive: the amount is checked
  first, and the call returns \<open>ErrInvalidAmount\<close>.
\<close>

theorem same_user_transfer_zero_amount:
  "fst (Transfer (exec NewWalletService scenario) ''A'' ''A'' 0 ''self'' 3000 3) = Some ErrInvalidAmount \<and>
   fst (Transfer (exec NewWalletService scenario) ''A'' ''A'' 0 ''self'' 3000 3) \<noteq> Some ErrSameUserTransfer"
  by (simp add: Transfer_def)

text \<open>
  C6: amended: a \<open>Transfer\<close> of a positive amount from an account to itself returns
  \<open>ErrSameUserTransfer\<close> in every state of the service, whatever the balance; the trace is
  empty, so no lock was taken, and the service is returned as it was.
\<close>

theorem same_user_transfer_rejected:
  assumes "0 < amount"
  shows "Transfer ws userID userID amount d n x = (Some ErrSameUserTransfer, ws, [])"
  using assms by (simp add: Transfer_def)

theorem same_user_transfer_rejected_witness:
  "(0 :: decimal) < 10 \<and>
   Transfer (exec NewWalletService scenario) ''A'' ''A'' 10 ''self'' 3000 3 =
     (Some ErrSameUserTransfer, exec NewWalletService scenario, []) \<and>
   Transfer (exec NewWalletService scenario) ''B'' ''B'' 10 ''self'' 3000 3 =
     (Some ErrSameUserTransfer, exec NewWalletService scenario, [])"
proof -
  have h: "(0 :: decimal) < 10" by simp
  from same_user_transfer_rejected[OF h, of "exec NewWalletService scenario" "''A''" "''self''" 3000 3]
       same_user_transfer_rejected[OF h, of "exec NewWalletService scenario" "''B''" "''self''" 3000 3] h
  show ?thesis by simp
qed


section \<open>Registration and history\<close>

text \<open>
  C8: \<open>GetTransactionHistory\<close> returns \<open>ErrUserNotFound\<close> for an unregistered id; for a
  registered id it returns the transactions of the log whose source or destination is the
  id, all of them and no other, in the order of the log.
\<close>

theorem history_is_filtered_log:
  "(users ws userID = None \<longrightarrow>
      GetTransactionHistory ws userID = ([], Some ErrUserNotFound)) \<and>
   (users ws userID \<noteq> None \<longrightarrow>
      GetTransactionHistory ws userID =
        (filter (\<lambda>tx. FromUserID tx = userID \<or> ToUserID tx = userID) (transactions ws), None))"
  by (simp add: GetTransactionHistory_def history_loop_filter)

theorem history_is_filtered_log_witness:
  "users (exec NewWalletService scenario) ''ghost'' = None \<and>
   GetTransactionHistory (exec NewWalletService scenario) ''ghost'' = ([], Some ErrUserNotFound) \<and>
   users (exec NewWalletService scenario) ''B'' \<noteq> None \<and>
   GetTransactionHistory (exec NewWalletService scenario) ''B'' =
     ([\<lparr>ID = generateTransactionID 2000, FromUserID = ''A'', ToUserID = ''B'', Amount = 121 / 4,
        Type = TransactionTransfer, Description = ''transfer'', Timestamp = 2\<rparr>], None)"
proof -
  have g: "users (exec NewWalletService scenario) ''ghost'' = None"
    and b: "users (exec NewWalletService scenario) ''B'' \<noteq> None"
    by (simp_all add: scenario_users)
  from history_is_filtered_log[of "exec NewWalletService scenario" "''ghost''"]
       history_is_filtered_log[of "exec NewWalletService scenario" "''B''"] g b
  show ?thesis by (simp add: scenario_transactions)
qed

text \<open>
  C9: \<open>CreateUser\<close> on a registered id returns \<open>ErrUserAlreadyExists\<close> and the service as
  it was; on an unregistered id it returns no error and stores the user and a wallet whose
  balance is zero, the log untouched.
\<close>

theorem CreateUser_contract:
  "(users ws userID \<noteq> None \<longrightarrow>
      CreateUser ws userID name email =
        (Some ErrUserAlreadyExists, ws, [Lock ServiceMu, Unlock ServiceMu])) \<and>
   (users ws userID = None \<longrightarrow>
      fst (CreateUser ws userID name email) = None \<and>
      users (fst (snd (CreateUser ws userID name email))) =
        (users ws)(userID \<mapsto> \<lparr>User.ID = userID, Name = name, Email = email\<rparr>) \<and>
      wallets (fst (snd (CreateUser ws userID name email))) =
        (wallets ws)(userID \<mapsto> \<lparr>UserID = userID, Balance = 0\<rparr>) \<and>
      transactions (fst (snd (CreateUser ws userID name email))) = transactions ws \<and>
      GetBalanceDecimal (fst (snd (CreateUser ws userID name email))) userID = (0, None))"
  by (simp add: CreateUser_def GetBalanceDecimal_def Let_def)

theorem CreateUser_contract_witness:
  "users (exec NewWalletService scenario) ''A'' \<noteq> None \<and>
   CreateUser (exec NewWalletService scenario) ''A'' ''Eve'' ''eve@example.com'' =
     (Some ErrUserAlreadyExists, exec NewWalletService scenario, [Lock ServiceMu, Unlock ServiceMu]) \<and>
   users (exec NewWalletService scenario) ''C'' = None \<and>
   fst (CreateUser (exec NewWalletService scenario) ''C'' ''Carol'' ''carol@example.com'') = None \<and>
   GetBalanceDecimal
     (fst (snd (CreateUser (exec NewWalletService scenario) ''C'' ''Carol'' ''carol@example.com'')))
     ''C'' = (0, None)"
proof -
  have a: "users (exec NewWalletService scenario) ''A'' \<noteq> None"
    and c: "users (exec NewWalletService scenario) ''C'' = None"
    by (simp_all add: scenario_users)
  from CreateUser_contract[of "exec NewWalletService scenario" "''A''" "''Eve''" "''eve@example.com''"]
       CreateUser_contract[of "exec NewWalletService scenario" "''C''" "''Carol''" "''carol@example.com''"]
       a c
  show ?thesis by simp
qed

text \<open>
  C10: in every state reached from a fresh service the users map and the wallets map
  have the same ids; so \<open>GetBalanceDecimal\<close> returns \<open>ErrUserNotFound\<close> for an id exactly when
  \<open>GetTransactionHistory\<close> does.
\<close>

theorem users_and_wallets_agree:
  "dom (users (exec NewWalletService cs)) = dom (wallets (exec NewWalletService cs)) \<and>
   (snd (GetBalanceDecimal (exec NewWalletService cs) userID) = Some ErrUserNotFound \<longleftrightarrow>
    snd (GetTransactionHistory (exec NewWalletService cs) userID) = Some ErrUserNotFound)"
proof -
  have d: "dom (users (exec NewWalletService cs)) = dom (wallets (exec NewWalletService cs))"
    using wf_reachable[of cs] by (simp add: wf_service_def inv_dom_def)
  then have "userID \<in> dom (users (exec NewWalletService cs)) \<longleftrightarrow>
             userID \<in> dom (wallets (exec NewWalletService cs))"
    by simp
  then have iff: "users (exec NewWalletService cs) userID = None \<longleftrightarrow>
                  wallets (exec NewWalletService cs) userID = None"
    by (simp only: domIff) blast
  have "snd (GetBalanceDecimal (exec NewWalletService cs) userID) = Some ErrUserNotFound \<longleftrightarrow>
        wallets (exec NewWalletService cs) userID = None"
    by (simp add: GetBalanceDecimal_def split: option.splits)
  moreover
  have "snd (GetTransactionHistory (exec NewWalletService cs) userID) = Some ErrUserNotFound \<longleftrightarrow>
        users (exec NewWalletService cs) userID = None"
    by (simp add: GetTransactionHistory_def)
  ultimately show ?thesis using d iff by simp
qed

theorem users_and_wallets_agree_witness:
  "dom (users (exec NewWalletService scenario)) = dom (wallets (exec NewWalletService scenario)) \<and>
   snd (GetBalanceDecimal (exec NewWalletService scenario) ''ghost'') = Some ErrUserNotFound \<and>
   snd (GetTransactionHistory (exec NewWalletService scenario) ''ghost'') = Some ErrUserNotFound \<and>
   snd (GetBalanceDecimal (exec NewWalletService scenario) ''A'') = None \<and>
   snd (GetTransactionHistory (exec NewWalletService scenario) ''A'') \<noteq> Some ErrUserNotFound"
proof -
  have g: "snd (GetBalanceDecimal (exec NewWalletService scenario) ''ghost'') = Some ErrUserNotFound"
    and a: "snd (GetBalanceDecimal (exec NewWalletService scenario) ''A'') = None"
    by (simp_all add: GetBalanceDecimal_def scenario_wallets)
  from users_and_wallets_agree[of scenario "''ghost''"] g
  have g': "snd (GetTransactionHistory (exec NewWalletService scenario) ''ghost'') = Some ErrUserNotFound"
    by simp
  from users_and_wallets_agree[of scenario "''A''"] a
  have a': "snd (GetTransactionHistory (exec NewWalletService scenario) ''A'') \<noteq> Some ErrUserNotFound"
    and d: "dom (users (exec NewWalletService scenario)) = dom (wallets (exec NewWalletService scenario))"
    by simp_all
  from g a g' a' d show ?thesis by simp
qed


section \<open>Lock order\<close>

text \<open>
  C4: \<open>getOrderedLocks\<close> returns the lock of the smaller id first and the lock of the
  larger id second, in Go's order of strings, so it returns the same pair for \<open>(a, b)\<close> and
  \<open>(b, a)\<close>; in a reachable state these are the two per-user mutexes. A trace of \<open>Transfer\<close>
  that writes a balance starts by locking the first and then the second of the pair, before
  any write.
\<close>

theorem ordered_locks:
  "fst (getOrderedLocks ws a b) =
     (fst (getLock (userLocks ws) (min a b)), fst (getLock (userLocks ws) (max a b))) \<and>
   fst (getOrderedLocks ws a b) = fst (getOrderedLocks ws b a) \<and>
   fst (getOrderedLocks (exec NewWalletService cs) a b) = (UserMutex (min a b), UserMutex (max a b)) \<and>
   (SetBalance uid \<in> set (snd (snd (Transfer ws a b amount d n x))) \<longrightarrow>
      (\<exists>rest. snd (snd (Transfer ws a b amount d n x)) =
         [RLock ServiceMu, RUnlock ServiceMu,
          Lock (fst (fst (getOrderedLocks ws a b))), Lock (snd (fst (getOrderedLocks ws a b)))] @ rest))"
proof -
  have 1: "fst (getOrderedLocks ws a b) =
     (fst (getLock (userLocks ws) (min a b)), fst (getLock (userLocks ws) (max a b)))"
    by (rule getOrderedLocks_min_max)
  have 2: "fst (getOrderedLocks ws a b) = fst (getOrderedLocks ws b a)"
    by (simp add: getOrderedLocks_min_max min.commute max.commute)
  have "locks_ok (userLocks (exec NewWalletService cs))"
    using inv_locks_reachable[of cs] by (simp add: inv_locks_def)
  then have 3: "fst (getOrderedLocks (exec NewWalletService cs) a b) =
                  (UserMutex (min a b), UserMutex (max a b))"
    by (simp add: getOrderedLocks_min_max getLock_ok)
  have 4: "SetBalance uid \<in> set (snd (snd (Transfer ws a b amount d n x))) \<longrightarrow>
      (\<exists>rest. snd (snd (Transfer ws a b amount d n x)) =
         [RLock ServiceMu, RUnlock ServiceMu,
          Lock (fst (fst (getOrderedLocks ws a b))), Lock (snd (fst (getOrderedLocks ws a b)))] @ rest)"
    using Transfer_trace[of ws a b amount d n x] by auto
  from 1 2 3 4 show ?thesis by blast
qed

theorem ordered_locks_witness:
  "fst (getOrderedLocks (exec NewWalletService scenario) ''B'' ''A'') = (UserMutex ''A'', UserMutex ''B'') \<and>
   fst (getOrderedLocks (exec NewWalletService scenario) ''A'' ''B'') = (UserMutex ''A'', UserMutex ''B'') \<and>
   SetBalance ''B'' \<in> set (snd (snd (Transfer (exec NewWalletService scenario) ''B'' ''A'' 10 ''back'' 3000 3))) \<and>
   take 4 (snd (snd (Transfer (exec NewWalletService scenario) ''B'' ''A'' 10 ''back'' 3000 3))) =
     [RLock ServiceMu, RUnlock ServiceMu, Lock (UserMutex ''A''), Lock (UserMutex ''B'')]"
proof -
  have m: "min ''B'' ''A'' = ''A''" "max ''B'' ''A'' = ''B''" by simp_all
  have h: "SetBalance ''B'' \<in>
      set (snd (snd (Transfer (exec NewWalletService scenario) ''B'' ''A'' 10 ''back'' 3000 3)))"
    by (simp add: scenario_transfer_back_trace)
  note t = ordered_locks[of "exec NewWalletService scenario" "''B''" "''A''" scenario "''B''" 10 "''back''" 3000 3]
  from t have "fst (getOrderedLocks (exec NewWalletService scenario) ''B'' ''A'') =
      (UserMutex (min ''B'' ''A''), UserMutex (max ''B'' ''A''))"
    by blast
  with m have ba: "fst (getOrderedLocks (exec NewWalletService scenario) ''B'' ''A'') =
      (UserMutex ''A'', UserMutex ''B'')"
    by simp
  from t have "fst (getOrderedLocks (exec NewWalletService scenario) ''B'' ''A'') =
      fst (getOrderedLocks (exec NewWalletService scenario) ''A'' ''B'')"
    by blast
  with ba have ab: "fst (getOrderedLocks (exec NewWalletService scenario) ''A'' ''B'') =
      (UserMutex ''A'', UserMutex ''B'')"
    by simp
  from t h have "\<exists>rest.
    snd (snd (Transfer (exec NewWalletService scenario) ''B'' ''A'' 10 ''back'' 3000 3)) =
       [RLock ServiceMu, RUnlock ServiceMu,
        Lock (fst (fst (getOrderedLocks (exec NewWalletService scenario) ''B'' ''A''))),
        Lock (snd (fst (getOrderedLocks (exec NewWalletService scenario) ''B'' ''A'')))] @ rest"
    by blast
  then obtain rest where
    "snd (snd (Transfer (exec NewWalletService scenario) ''B'' ''A'' 10 ''back'' 3000 3)) =
       [RLock ServiceMu, RUnlock ServiceMu, Lock (UserMutex ''A''), Lock (UserMutex ''B'')] @ rest"
    by (auto simp: ba)
  then have "take 4 (snd (snd (Transfer (exec NewWalletService scenario) ''B'' ''A'' 10 ''back'' 3000 3))) =
     [RLock ServiceMu, RUnlock ServiceMu, Lock (UserMutex ''A''), Lock (UserMutex ''B'')]"
    by simp
  with ba ab h show ?thesis by simp
qed


section \<open>Transaction ids\<close>

text \<open>
  C7: the ids of the log are not always distinct. Two deposits whose calls of
  \<open>generateTransactionID\<close> read the same clock value are both recorded under the same id.
\<close>

theorem colliding_transaction_ids:
  "map ID (transactions (exec NewWalletService collision)) =
     [''tx_1700000000000000000'', ''tx_1700000000000000000''] \<and>
   \<not> distinct (map ID (transactions (exec NewWalletService collision)))"
proof -
  have g: "generateTransactionID 1700000000000000000 = ''tx_1700000000000000000''"
    by (simp add: generateTransactionID_def sprintf_d_def digits10.simps)
  have "transactions (exec NewWalletService collision) =
     [\<lparr>ID = generateTransactionID 1700000000000000000, FromUserID = ''A'', ToUserID = ''A'',
       Amount = 5, Type = TransactionDeposit, Description = ''first'', Timestamp = 1700000000\<rparr>,
      \<lparr>ID = generateTransactionID 1700000000000000000, FromUserID = ''A'', ToUserID = ''A'',
       Amount = 7, Type = TransactionDeposit, Description = ''second'', Timestamp = 1700000000\<rparr>]"
    by (simp add: collision_def NewWalletService_def CreateUser_def Deposit_def getLock_def
                  recordTransaction_def Let_def)
  then show ?thesis by (simp add: g)
qed

end
